theory Spec2Isabelle
  imports Main
begin

section \<open>Blade slot reports: blades.py (slot rows) and chassis.py (slot rows and summary)\<close>

text \<open>
  Both scripts list the chassis of the fleet, list the blades of every chassis, and write
  one CSV row per slot of every chassis. chassis.py also spreads a two-slot blade over the
  next slot and appends a summary of counts per chassis model and status.

  The embedding starts where the output file has been opened: the answers of the two list
  calls are the input, the rows handed to the CSV writer (and the summary counter) are the
  output. Log lines are not modelled.
\<close>

subsection \<open>Python values and API objects\<close>

text \<open>
  The values an attribute of an API object holds when the answer is typed as the API
  declares it or as the scripts guard against: \<open>None\<close>, a string or an integer.
  An attribute that the object does not have (\<open>hasattr\<close> is false) is \<open>None\<close> of the
  option type around it. A character is a code point below 256.
\<close>

datatype pyval = PNone | PStr string | PInt int

text \<open>
  \<open>slot_id\<close> is the one attribute the scripts convert, with \<open>int\<close>. For what \<open>int\<close>
  does on an object of any type, \<open>slot_id\<close> can also hold a float (\<open>m * 2 ^ e\<close>, an
  infinity of either sign, or a NaN) or another object that \<open>int\<close> does not accept
  (a list, a dict, an object without a conversion to an integer).
\<close>

datatype pyfloat = FFinite int int | FInf | FNaN

datatype pyobj = Val pyval | Float pyfloat | Other

datatype error = ValueError | TypeError | OverflowError

record chassis =
  c_name :: "pyval option"
  c_moid :: "pyval option"
  c_model :: "pyval option"
  c_serial :: "pyval option"
  c_oper_state :: "pyval option"

text \<open>A blade, with \<open>slot_id\<close> values of type \<open>'v\<close>: typed, or any object.\<close>

record 'v api_blade =
  b_slot_id :: "'v option"
  b_moid :: "pyval option"
  b_model :: "pyval option"
  b_serial :: "pyval option"

type_synonym blade = "pyval api_blade"

type_synonym any_blade = "pyobj api_blade"

text \<open>
  The answer of a list call: no answer (\<open>None\<close>), an answer without a \<open>results\<close>
  attribute, or an answer whose \<open>results\<close> is \<open>None\<close> or a list.
\<close>

datatype 'a response = NoResponse | NoResults | Results "'a list option"

text \<open>The value stored per slot: the dictionary \<open>{'model': ..., 'serial': ...}\<close>.\<close>

record details =
  model :: pyval
  serial :: pyval

text \<open>One call of \<open>writer.writerow\<close>: the seven cells in the order of \<open>fieldnames\<close>.\<close>

record row =
  Chassis :: pyval
  ChassisModel :: pyval
  ChassisSerial :: pyval
  Slot :: pyval
  BladeModel :: pyval
  BladeSerial :: pyval
  OperState :: pyval

subsection \<open>Python primitives\<close>

text \<open>Truth value of an object in a condition.\<close>

fun truthy :: "pyval \<Rightarrow> bool" where
  "truthy PNone = False"
| "truthy (PStr s) = (s \<noteq> [])"
| "truthy (PInt n) = (n \<noteq> 0)"

text \<open>\<open>obj.attr if hasattr(obj, 'attr') and obj.attr else default\<close>\<close>

fun attr_or :: "pyval option \<Rightarrow> string \<Rightarrow> pyval" where
  "attr_or None d = PStr d"
| "attr_or (Some v) d = (if truthy v then v else PStr d)"

text \<open>\<open>getattr(obj, 'attr', default)\<close>\<close>

fun getattr :: "pyval option \<Rightarrow> string \<Rightarrow> pyval" where
  "getattr None d = PStr d"
| "getattr (Some v) d = v"

text \<open>\<open>str.isspace\<close> on the code points below 256, and \<open>str.strip()\<close>.\<close>

definition py_isspace :: "char \<Rightarrow> bool" where
  "py_isspace c = (c \<in> {CHR 0x09, CHR 0x0A, CHR 0x0B, CHR 0x0C, CHR 0x0D,
                         CHR 0x1C, CHR 0x1D, CHR 0x1E, CHR 0x1F, CHR 0x20,
                         CHR 0x85, CHR 0xA0})"

definition py_strip :: "string \<Rightarrow> string" where
  "py_strip s = rev (dropWhile py_isspace (rev (dropWhile py_isspace s)))"

definition is_digit :: "char \<Rightarrow> bool" where
  "is_digit c = (c \<in> set ''0123456789'')"

definition digit_val :: "char \<Rightarrow> int" where
  "digit_val c = of_char c - 48"

text \<open>
  The digits of a decimal literal: digits, with single underscores between digits.
  The flag says that a digit has to come next (at the start and after an underscore).
\<close>

fun py_digits :: "bool \<Rightarrow> int \<Rightarrow> string \<Rightarrow> int option" where
  "py_digits need acc [] = (if need then None else Some acc)"
| "py_digits need acc (c # cs) =
     (if is_digit c then py_digits False (acc * 10 + digit_val c) cs
      else if c = CHR ''_'' \<and> \<not> need then py_digits True acc cs
      else None)"

text \<open>
  The whitespace \<open>int\<close> skips around a literal, on the code points below 256: fewer
  characters than \<open>str.strip()\<close> drops (U+001C to U+001F are not skipped).
\<close>

definition py_int_isspace :: "char \<Rightarrow> bool" where
  "py_int_isspace c = (c \<in> {CHR 0x09, CHR 0x0A, CHR 0x0B, CHR 0x0C, CHR 0x0D, CHR 0x20,
                             CHR 0x85, CHR 0xA0})"

definition py_int_strip :: "string \<Rightarrow> string" where
  "py_int_strip s = rev (dropWhile py_int_isspace (rev (dropWhile py_int_isspace s)))"

text \<open>The interpreter's limit on the digits of a decimal literal (its default).\<close>

definition int_max_str_digits :: nat where
  "int_max_str_digits = 4300"

text \<open>
  \<open>int(s)\<close> for a string: surrounding whitespace is skipped, one sign may lead, the rest
  is a decimal literal of at most \<open>int_max_str_digits\<close> digits (underscores not
  counted); anything else raises \<open>ValueError\<close>.
\<close>

definition py_int_str :: "string \<Rightarrow> error + int" where
  "py_int_str s =
     (let t = py_int_strip s;
          neg = (t \<noteq> [] \<and> hd t = CHR ''-'');
          body = (if t \<noteq> [] \<and> (hd t = CHR ''-'' \<or> hd t = CHR ''+'') then tl t else t)
      in case py_digits True 0 body of
           None \<Rightarrow> Inl ValueError
         | Some n \<Rightarrow>
             (if length (filter is_digit body) > int_max_str_digits then Inl ValueError
              else Inr (if neg then - n else n)))"

text \<open>\<open>int(v)\<close> on a typed value: \<open>int(None)\<close> raises \<open>TypeError\<close>.\<close>

fun py_int :: "pyval \<Rightarrow> error + int" where
  "py_int PNone = Inl TypeError"
| "py_int (PInt n) = Inr n"
| "py_int (PStr s) = py_int_str s"

text \<open>
  \<open>int(v)\<close> on any object: a finite float is cut towards zero, a NaN raises
  \<open>ValueError\<close>, an infinity \<open>OverflowError\<close>, an object without a conversion
  \<open>TypeError\<close>.
\<close>

definition float_trunc :: "int \<Rightarrow> int \<Rightarrow> int" where
  "float_trunc m e =
     (if 0 \<le> e then m * 2 ^ nat e
      else if 0 \<le> m then m div 2 ^ nat (- e)
      else - ((- m) div 2 ^ nat (- e)))"

fun py_int_any :: "pyobj \<Rightarrow> error + int" where
  "py_int_any (Val v) = py_int v"
| "py_int_any (Float (FFinite m e)) = Inr (float_trunc m e)"
| "py_int_any (Float FInf) = Inl OverflowError"
| "py_int_any (Float FNaN) = Inl ValueError"
| "py_int_any Other = Inl TypeError"

subsection \<open>Dictionaries\<close>

text \<open>
  A \<open>dict\<close> keeps its keys in the order of their first insertion; assigning to a key
  that is present replaces the value and leaves the key where it is.
\<close>

type_synonym ('k, 'v) dict = "('k \<times> 'v) list"

definition dict_get :: "('k, 'v) dict \<Rightarrow> 'k \<Rightarrow> 'v option" where
  "dict_get d k = map_of d k"

fun dict_set :: "'k \<Rightarrow> 'v \<Rightarrow> ('k, 'v) dict \<Rightarrow> ('k, 'v) dict" where
  "dict_set k v [] = [(k, v)]"
| "dict_set k v (p # ps) = (if fst p = k then (k, v) # ps else p # dict_set k v ps)"

text \<open>\<open>d.setdefault(k, v)\<close>, for its effect on \<open>d\<close>.\<close>

definition dict_setdefault :: "'k \<Rightarrow> 'v \<Rightarrow> ('k, 'v) dict \<Rightarrow> ('k, 'v) dict" where
  "dict_setdefault k v d = (case dict_get d k of None \<Rightarrow> d @ [(k, v)] | Some _ \<Rightarrow> d)"

subsection \<open>Configuration (both scripts)\<close>

definition CHASSIS_SLOT_COUNTS :: "(pyval, int) dict" where
  "CHASSIS_SLOT_COUNTS =
     [(PStr ''UCSB-5108-AC2'', 8), (PStr ''UCSB-5108-DC2'', 8), (PStr ''UCSX-9508'', 8)]"

definition DEFAULT_SLOT_COUNT :: int where
  "DEFAULT_SLOT_COUNT = 8"

definition TWO_SLOT_MODELS :: "pyval list" where
  "TWO_SLOT_MODELS = [PStr ''UCSX-410C-M7'', PStr ''UCSB-B480-M5'']"

definition fieldnames :: row where
  "fieldnames = \<lparr>Chassis = PStr ''Chassis'', ChassisModel = PStr ''ChassisModel'',
     ChassisSerial = PStr ''ChassisSerial'', Slot = PStr ''Slot'',
     BladeModel = PStr ''BladeModel'', BladeSerial = PStr ''BladeSerial'',
     OperState = PStr ''OperState''\<rparr>"

subsection \<open>Per chassis: the values both scripts compute alike\<close>

definition chassis_name :: "chassis \<Rightarrow> pyval" where
  "chassis_name ch = attr_or (c_name ch) ''UnknownChassis''"

definition chassis_model_str :: "chassis \<Rightarrow> pyval" where
  "chassis_model_str ch = attr_or (c_model ch) ''UNKNOWN_MODEL''"

definition chassis_serial_str :: "chassis \<Rightarrow> pyval" where
  "chassis_serial_str ch = attr_or (c_serial ch) ''UnknownSerial''"

text \<open>
  The \<open>if\<close>/\<open>elif\<close> chain on \<open>chassis.oper_state\<close>; a value that is neither a string nor
  \<open>None\<close> leaves the initial \<open>"UnknownChassisState"\<close>.
\<close>

definition reported_chassis_oper_state :: "chassis \<Rightarrow> string" where
  "reported_chassis_oper_state ch =
     (case c_oper_state ch of
        None \<Rightarrow> ''UnknownChassisState''
      | Some chassis_state_val \<Rightarrow>
          (case chassis_state_val of
             PStr s \<Rightarrow> (if py_strip s \<noteq> [] then py_strip s else ''operable'')
           | PNone \<Rightarrow> ''NotReported (ChassisState_is_None)''
           | PInt n \<Rightarrow> ''UnknownChassisState''))"

definition total_slots :: "chassis \<Rightarrow> int" where
  "total_slots ch =
     (case dict_get CHASSIS_SLOT_COUNTS (chassis_model_str ch) of
        Some n \<Rightarrow> n
      | None \<Rightarrow> DEFAULT_SLOT_COUNT)"

text \<open>
  The list the blade loop runs over: empty unless the answer is there, has \<open>results\<close>, and
  \<open>results\<close> is a non-empty list.
\<close>

fun blade_results :: "'b response \<Rightarrow> 'b list" where
  "blade_results NoResponse = []"
| "blade_results NoResults = []"
| "blade_results (Results None) = []"
| "blade_results (Results (Some bs)) = bs"

text \<open>
  One pass of the blade loop, on a typed answer. \<open>mk\<close> builds the stored value from the
  blade (the two scripts differ there). A \<open>ValueError\<close> of \<open>int\<close> is caught and the
  blade skipped; any other exception leaves the loop.
\<close>

definition populate_blade ::
  "(blade \<Rightarrow> details) \<Rightarrow> (int, details) dict \<Rightarrow> blade \<Rightarrow> error + (int, details) dict" where
  "populate_blade mk populated b =
     (case b_slot_id b of
        None \<Rightarrow> Inr populated
      | Some v \<Rightarrow>
          (if v = PNone then Inr populated
           else (case py_int v of
                   Inr slot_id \<Rightarrow> Inr (dict_set slot_id (mk b) populated)
                 | Inl ValueError \<Rightarrow> Inr populated
                 | Inl e \<Rightarrow> Inl e)))"

fun populate_loop ::
  "(blade \<Rightarrow> details) \<Rightarrow> (int, details) dict \<Rightarrow> blade list \<Rightarrow> error + (int, details) dict" where
  "populate_loop mk populated [] = Inr populated"
| "populate_loop mk populated (b # bs) =
     (case populate_blade mk populated b of
        Inl e \<Rightarrow> Inl e
      | Inr populated' \<Rightarrow> populate_loop mk populated' bs)"

text \<open>The row of one slot, from the map the script looks the slot up in.\<close>

definition slot_row :: "chassis \<Rightarrow> (int, details) dict \<Rightarrow> int \<Rightarrow> row" where
  "slot_row ch slots slot_num =
     (case dict_get slots slot_num of
        Some d \<Rightarrow>
          \<lparr>Chassis = chassis_name ch, ChassisModel = chassis_model_str ch,
           ChassisSerial = chassis_serial_str ch, Slot = PInt slot_num,
           BladeModel = model d, BladeSerial = serial d,
           OperState = PStr (reported_chassis_oper_state ch)\<rparr>
      | None \<Rightarrow>
          \<lparr>Chassis = chassis_name ch, ChassisModel = chassis_model_str ch,
           ChassisSerial = chassis_serial_str ch, Slot = PInt slot_num,
           BladeModel = PStr [], BladeSerial = PStr [],
           OperState = PStr ''Empty''\<rparr>)"

text \<open>\<open>for slot_num in range(1, total_slots + 1)\<close>\<close>

definition slot_rows :: "chassis \<Rightarrow> (int, details) dict \<Rightarrow> row list" where
  "slot_rows ch slots = map (slot_row ch slots) [1..total_slots ch]"

subsection \<open>blades.py\<close>

definition blades_details :: "'v api_blade \<Rightarrow> details" where
  "blades_details b =
     \<lparr>model = attr_or (b_model b) ''UnknownBladeModel'',
      serial = attr_or (b_serial b) ''UnknownBladeSerial''\<rparr>"

definition blades_populated_slots_details :: "blade response \<Rightarrow> error + (int, details) dict" where
  "blades_populated_slots_details resp = populate_loop blades_details [] (blade_results resp)"

text \<open>The body of the chassis loop: the rows written for one chassis.\<close>

definition blades_chassis :: "chassis \<Rightarrow> blade response \<Rightarrow> error + row list" where
  "blades_chassis ch resp =
     (case blades_populated_slots_details resp of
        Inl e \<Rightarrow> Inl e
      | Inr populated \<Rightarrow> Inr (slot_rows ch populated))"

text \<open>
  The run, from the header on. Each chassis comes with the answer of its blade query.
  An exception inside the loop is caught outside it: the rows written so far stay.
\<close>

fun blades_for_loop :: "row list \<Rightarrow> (chassis \<times> blade response) list \<Rightarrow> row list" where
  "blades_for_loop written [] = written"
| "blades_for_loop written ((ch, resp) # rest) =
     (case blades_chassis ch resp of
        Inl e \<Rightarrow> written
      | Inr rows \<Rightarrow> blades_for_loop (written @ rows) rest)"

fun blades_main :: "(chassis \<times> blade response) response \<Rightarrow> row list" where
  "blades_main NoResponse = [fieldnames]"
| "blades_main NoResults = [fieldnames]"
| "blades_main (Results None) = [fieldnames]"
| "blades_main (Results (Some all_chassis)) =
     (if all_chassis = [] then [fieldnames] else blades_for_loop [fieldnames] all_chassis)"

subsection \<open>chassis.py\<close>

definition chassis_details :: "'v api_blade \<Rightarrow> details" where
  "chassis_details b =
     \<lparr>model = getattr (b_model b) ''UnknownBladeModel'',
      serial = getattr (b_serial b) ''UnknownBladeSerial''\<rparr>"

definition chassis_populated_slots_details :: "blade response \<Rightarrow> error + (int, details) dict" where
  "chassis_populated_slots_details resp = populate_loop chassis_details [] (blade_results resp)"

text \<open>\<open>details['model'] in TWO_SLOT_MODELS\<close>\<close>

definition two_slot :: "details \<Rightarrow> bool" where
  "two_slot d = (model d \<in> set TWO_SLOT_MODELS)"

text \<open>
  The expansion loop over \<open>populated_slots_details.items()\<close>, with the map built so far
  as accumulator.
\<close>

fun expand_loop ::
  "int \<Rightarrow> (int, details) dict \<Rightarrow> (int, details) dict \<Rightarrow> (int, details) dict" where
  "expand_loop tot expanded [] = expanded"
| "expand_loop tot expanded ((slot_id, d) # rest) =
     (let expanded1 = dict_set slot_id d expanded;
          next_slot_id = slot_id + 1;
          expanded2 = (if two_slot d \<and> next_slot_id \<le> tot
                       then dict_set next_slot_id d expanded1 else expanded1)
      in expand_loop tot expanded2 rest)"

definition expanded_slots_details :: "int \<Rightarrow> (int, details) dict \<Rightarrow> (int, details) dict" where
  "expanded_slots_details tot populated = expand_loop tot [] populated"

text \<open>
  The summary counter: chassis model to (status to count). \<open>count_status\<close> is
  \<open>counts.setdefault(status, 0); counts[status] += n\<close>.
\<close>

type_synonym summary = "(pyval, (string, int) dict) dict"

definition count_status :: "string \<Rightarrow> int \<Rightarrow> (string, int) dict \<Rightarrow> (string, int) dict" where
  "count_status status n counts =
     (let counts1 = dict_setdefault status 0 counts
      in dict_set status (the (dict_get counts1 status) + n) counts1)"

text \<open>Step 1: one count per entry of the direct map, under the chassis state.\<close>

fun count_blades :: "string \<Rightarrow> (int, details) dict \<Rightarrow> (string, int) dict \<Rightarrow> (string, int) dict" where
  "count_blades status [] counts = counts"
| "count_blades status (p # rest) counts = count_blades status rest (count_status status 1 counts)"

text \<open>Step 2: the slots taken by the entries of the direct map.\<close>

fun slots_occupied_by_blades :: "(int, details) dict \<Rightarrow> int" where
  "slots_occupied_by_blades [] = 0"
| "slots_occupied_by_blades ((slot_id, d) # rest) =
     (if two_slot d then 2 else 1) + slots_occupied_by_blades rest"

text \<open>Step 3: the empty slots, counted when there are any.\<close>

definition count_empty :: "int \<Rightarrow> (int, details) dict \<Rightarrow> (string, int) dict \<Rightarrow> (string, int) dict" where
  "count_empty tot populated counts =
     (let num_empty_slots = tot - slots_occupied_by_blades populated
      in if num_empty_slots > 0 then count_status ''Empty'' num_empty_slots counts else counts)"

text \<open>
  The summary update of one chassis: \<open>model_summary_counts[chassis_model_str]\<close> is created
  empty when missing, then steps 1 to 3 work on it.
\<close>

definition update_summary :: "chassis \<Rightarrow> (int, details) dict \<Rightarrow> summary \<Rightarrow> summary" where
  "update_summary ch populated model_summary_counts =
     (let msc1 = dict_setdefault (chassis_model_str ch) [] model_summary_counts;
          counts = the (dict_get msc1 (chassis_model_str ch));
          counts1 = count_blades (reported_chassis_oper_state ch) populated counts;
          counts2 = count_empty (total_slots ch) populated counts1
      in dict_set (chassis_model_str ch) counts2 msc1)"

text \<open>The body of the chassis loop: the rows written and the summary counter after it.\<close>

definition chassis_chassis ::
  "chassis \<Rightarrow> blade response \<Rightarrow> summary \<Rightarrow> error + (row list \<times> summary)" where
  "chassis_chassis ch resp model_summary_counts =
     (case chassis_populated_slots_details resp of
        Inl e \<Rightarrow> Inl e
      | Inr populated \<Rightarrow>
          Inr (slot_rows ch (expanded_slots_details (total_slots ch) populated),
               update_summary ch populated model_summary_counts))"

text \<open>
  The chassis loop: the rows written, the counter, and the exception that ended the
  loop, if one did.
\<close>

fun chassis_for_loop ::
  "row list \<Rightarrow> summary \<Rightarrow> (chassis \<times> blade response) list \<Rightarrow> error option \<times> row list \<times> summary" where
  "chassis_for_loop written msc [] = (None, written, msc)"
| "chassis_for_loop written msc ((ch, resp) # rest) =
     (case chassis_chassis ch resp msc of
        Inl e \<Rightarrow> (Some e, written, msc)
      | Inr (rows, msc') \<Rightarrow> chassis_for_loop (written @ rows) msc' rest)"

text \<open>The summary block: two blank rows, the title, the column names, one row per count.\<close>

definition blank_row :: row where
  "blank_row = \<lparr>Chassis = PStr [], ChassisModel = PStr [], ChassisSerial = PStr [],
     Slot = PStr [], BladeModel = PStr [], BladeSerial = PStr [], OperState = PStr []\<rparr>"

definition summary_data_rows :: "summary \<Rightarrow> row list" where
  "summary_data_rows msc =
     concat (map (\<lambda>(m, status_counts).
               map (\<lambda>(status, count).
                     blank_row\<lparr>Chassis := m, ChassisModel := PStr status,
                               ChassisSerial := PInt count\<rparr>) status_counts) msc)"

definition summary_block :: "summary \<Rightarrow> row list" where
  "summary_block msc =
     [blank_row, blank_row,
      blank_row\<lparr>Chassis := PStr ''--- Summary by Chassis Model ---''\<rparr>,
      blank_row\<lparr>Chassis := PStr ''Chassis Model'', ChassisModel := PStr ''Slot Status'',
                ChassisSerial := PStr ''Count''\<rparr>]
     @ summary_data_rows msc"

fun chassis_main :: "(chassis \<times> blade response) response \<Rightarrow> row list" where
  "chassis_main NoResponse = [fieldnames]"
| "chassis_main NoResults = [fieldnames]"
| "chassis_main (Results None) = [fieldnames]"
| "chassis_main (Results (Some all_chassis)) =
     (if all_chassis = [] then [fieldnames]
      else (case chassis_for_loop [fieldnames] [] all_chassis of
              (Some e, written, msc) \<Rightarrow> written
            | (None, written, msc) \<Rightarrow> written @ summary_block msc))"

text \<open>The counter the run ends with.\<close>

definition model_summary_counts :: "(chassis \<times> blade response) list \<Rightarrow> summary" where
  "model_summary_counts all_chassis = snd (snd (chassis_for_loop [fieldnames] [] all_chassis))"

subsection \<open>The blade loop on slot values of any type\<close>

text \<open>
  The same pass and loop when \<open>slot_id\<close> holds any object: \<open>int\<close> can then raise
  \<open>TypeError\<close> and \<open>OverflowError\<close>, which the \<open>except ValueError\<close> clause lets through.
\<close>

definition populate_blade_any ::
  "(any_blade \<Rightarrow> details) \<Rightarrow> (int, details) dict \<Rightarrow> any_blade \<Rightarrow> error + (int, details) dict" where
  "populate_blade_any mk populated b =
     (case b_slot_id b of
        None \<Rightarrow> Inr populated
      | Some v \<Rightarrow>
          (if v = Val PNone then Inr populated
           else (case py_int_any v of
                   Inr slot_id \<Rightarrow> Inr (dict_set slot_id (mk b) populated)
                 | Inl ValueError \<Rightarrow> Inr populated
                 | Inl e \<Rightarrow> Inl e)))"

fun populate_loop_any ::
  "(any_blade \<Rightarrow> details) \<Rightarrow> (int, details) dict \<Rightarrow> any_blade list \<Rightarrow> error + (int, details) dict" where
  "populate_loop_any mk populated [] = Inr populated"
| "populate_loop_any mk populated (b # bs) =
     (case populate_blade_any mk populated b of
        Inl e \<Rightarrow> Inl e
      | Inr populated' \<Rightarrow> populate_loop_any mk populated' bs)"

definition blades_populated_slots_details_any ::
  "any_blade response \<Rightarrow> error + (int, details) dict" where
  "blades_populated_slots_details_any resp =
     populate_loop_any blades_details [] (blade_results resp)"

definition chassis_populated_slots_details_any ::
  "any_blade response \<Rightarrow> error + (int, details) dict" where
  "chassis_populated_slots_details_any resp =
     populate_loop_any chassis_details [] (blade_results resp)"

text \<open>The bodies of the two chassis loops on such an answer.\<close>

definition blades_chassis_any :: "chassis \<Rightarrow> any_blade response \<Rightarrow> error + row list" where
  "blades_chassis_any ch resp =
     (case blades_populated_slots_details_any resp of
        Inl e \<Rightarrow> Inl e
      | Inr populated \<Rightarrow> Inr (slot_rows ch populated))"

definition chassis_chassis_any ::
  "chassis \<Rightarrow> any_blade response \<Rightarrow> summary \<Rightarrow> error + (row list \<times> summary)" where
  "chassis_chassis_any ch resp msc =
     (case chassis_populated_slots_details_any resp of
        Inl e \<Rightarrow> Inl e
      | Inr populated \<Rightarrow>
          Inr (slot_rows ch (expanded_slots_details (total_slots ch) populated),
               update_summary ch populated msc))"

text \<open>A typed blade as a blade of any type.\<close>

definition untyped :: "blade \<Rightarrow> any_blade" where
  "untyped b =
     \<lparr>b_slot_id = map_option Val (b_slot_id b), b_moid = b_moid b, b_model = b_model b,
      b_serial = b_serial b\<rparr>"

subsection \<open>Notions the properties are stated with\<close>

text \<open>
  The slot a blade is entered under: the value of \<open>int(blade.slot_id)\<close> when the blade
  has a \<open>slot_id\<close> that is not \<open>None\<close> and \<open>int\<close> accepts it.
\<close>

definition blade_slot :: "blade \<Rightarrow> int option" where
  "blade_slot b =
     (case b_slot_id b of
        None \<Rightarrow> None
      | Some v \<Rightarrow> (if v = PNone then None
                   else (case py_int v of Inr slot_id \<Rightarrow> Some slot_id | Inl e \<Rightarrow> None)))"

text \<open>
  The exception a blade makes the blade loop leave with: the one \<open>int\<close> raises on its
  \<open>slot_id\<close>, unless it is the \<open>ValueError\<close> that is caught.
\<close>

definition blade_raises :: "any_blade \<Rightarrow> error option" where
  "blade_raises b =
     (case b_slot_id b of
        None \<Rightarrow> None
      | Some v \<Rightarrow> (if v = Val PNone then None
                   else (case py_int_any v of
                           Inr slot_id \<Rightarrow> None
                         | Inl ValueError \<Rightarrow> None
                         | Inl e \<Rightarrow> Some e)))"

text \<open>What one pass of the blade loop does to the map when it raises nothing.\<close>

definition populate_step ::
  "(blade \<Rightarrow> details) \<Rightarrow> (int, details) dict \<Rightarrow> blade \<Rightarrow> (int, details) dict" where
  "populate_step mk p b = (case blade_slot b of None \<Rightarrow> p | Some n \<Rightarrow> dict_set n (mk b) p)"

text \<open>The direct-assignment map of a chassis, in chassis.py and in blades.py.\<close>

definition direct_map :: "blade response \<Rightarrow> (int, details) dict" where
  "direct_map resp = (case chassis_populated_slots_details resp of Inr p \<Rightarrow> p | Inl e \<Rightarrow> [])"

definition blades_direct_map :: "blade response \<Rightarrow> (int, details) dict" where
  "blades_direct_map resp = (case blades_populated_slots_details resp of Inr p \<Rightarrow> p | Inl e \<Rightarrow> [])"

text \<open>The entries of a direct-assignment map whose model is a two-slot model.\<close>

fun two_slot_blades :: "(int, details) dict \<Rightarrow> int" where
  "two_slot_blades [] = 0"
| "two_slot_blades ((slot_id, d) # rest) = (if two_slot d then 1 else 0) + two_slot_blades rest"

text \<open>
  An entry of the direct-assignment map writes slot \<open>k\<close> of the expanded map: as its own
  slot, or as the slot after a two-slot blade.
\<close>

definition writes :: "int \<Rightarrow> int \<Rightarrow> int \<times> details \<Rightarrow> bool" where
  "writes tot k e = (fst e = k \<or> (two_slot (snd e) \<and> fst e + 1 = k \<and> k \<le> tot))"

text \<open>The sum of the counts of all status labels of one chassis model.\<close>

definition count_sum :: "summary \<Rightarrow> pyval \<Rightarrow> int" where
  "count_sum msc m =
     (case dict_get msc m of None \<Rightarrow> 0 | Some counts \<Rightarrow> sum_list (map snd counts))"

text \<open>What steps 1 and 3 add for one chassis: its blades and its empty slots.\<close>

definition chassis_counted :: "chassis \<Rightarrow> (int, details) dict \<Rightarrow> int" where
  "chassis_counted ch populated =
     int (length populated) + max 0 (total_slots ch - slots_occupied_by_blades populated)"

fun fleet_counted :: "pyval \<Rightarrow> (chassis \<times> blade response) list \<Rightarrow> int" where
  "fleet_counted m [] = 0"
| "fleet_counted m ((ch, resp) # rest) =
     (if chassis_model_str ch = m then chassis_counted ch (direct_map resp) else 0)
     + fleet_counted m rest"

text \<open>Over the chassis of one model: the sum of \<open>total_slots\<close>, and the two-slot blades.\<close>

fun total_slots_sum :: "pyval \<Rightarrow> (chassis \<times> blade response) list \<Rightarrow> int" where
  "total_slots_sum m [] = 0"
| "total_slots_sum m ((ch, resp) # rest) =
     (if chassis_model_str ch = m then total_slots ch else 0) + total_slots_sum m rest"

fun two_slot_sum :: "pyval \<Rightarrow> (chassis \<times> blade response) list \<Rightarrow> int" where
  "two_slot_sum m [] = 0"
| "two_slot_sum m ((ch, resp) # rest) =
     (if chassis_model_str ch = m then two_slot_blades (direct_map resp) else 0)
     + two_slot_sum m rest"

text \<open>
  A row reads as it should for its slot: the chassis state and the blade's model and
  serial when the slot is claimed by \<open>d\<close>, empty cells and \<open>"Empty"\<close> when it is not.
\<close>

definition row_as_claimed :: "string \<Rightarrow> details option \<Rightarrow> row \<Rightarrow> bool" where
  "row_as_claimed state claim r =
     (case claim of
        Some d \<Rightarrow> OperState r = PStr state \<and> BladeModel r = model d \<and> BladeSerial r = serial d
      | None \<Rightarrow> BladeModel r = PStr [] \<and> BladeSerial r = PStr [] \<and> OperState r = PStr ''Empty'')"

definition slot_cells :: "row \<Rightarrow> pyval \<times> pyval \<times> pyval \<times> pyval" where
  "slot_cells r = (Slot r, BladeModel r, BladeSerial r, OperState r)"

text \<open>The chassis and the blade of the scenario: one two-slot blade in slot 3 of 8.\<close>

definition scenario_chassis :: chassis where
  "scenario_chassis =
     \<lparr>c_name = Some (PStr ''chassis-1''), c_moid = Some (PStr ''moid-1''),
      c_model = Some (PStr ''UCSB-5108-AC2''), c_serial = Some (PStr ''CS1''),
      c_oper_state = Some (PStr ''operable'')\<rparr>"

definition scenario_blade :: blade where
  "scenario_blade =
     \<lparr>b_slot_id = Some (PInt 3), b_moid = Some (PStr ''moid-b1''),
      b_model = Some (PStr ''UCSX-410C-M7''), b_serial = Some (PStr ''SN1'')\<rparr>"

section \<open>Properties\<close>

subsection \<open>The blade loop\<close>

lemma py_int_str_cases: "py_int_str s = Inl ValueError \<or> (\<exists>n. py_int_str s = Inr n)"
  by (simp add: py_int_str_def Let_def split: option.splits)

lemma populate_blade_eq: "populate_blade mk p b = Inr (populate_step mk p b)"
proof (cases "b_slot_id b")
  case None
  then show ?thesis by (simp add: populate_blade_def populate_step_def blade_slot_def)
next
  case (Some v)
  show ?thesis
  proof (cases v)
    case PNone
    with Some show ?thesis by (simp add: populate_blade_def populate_step_def blade_slot_def)
  next
    case (PStr s)
    with Some py_int_str_cases [of s] show ?thesis
      by (auto simp: populate_blade_def populate_step_def blade_slot_def)
  next
    case (PInt n)
    with Some show ?thesis by (simp add: populate_blade_def populate_step_def blade_slot_def)
  qed
qed

lemma populate_loop_eq: "populate_loop mk p bs = Inr (foldl (populate_step mk) p bs)"
  by (induction bs arbitrary: p) (simp_all add: populate_blade_eq)

lemma blade_slot_None_iff:
  "blade_slot b = None \<longleftrightarrow>
     b_slot_id b = None \<or> b_slot_id b = Some PNone \<or>
     (\<exists>s. b_slot_id b = Some (PStr s) \<and> py_int_str s = Inl ValueError)"
proof (cases "b_slot_id b")
  case None
  then show ?thesis by (simp add: blade_slot_def)
next
  case (Some v)
  show ?thesis
  proof (cases v)
    case PNone
    with Some show ?thesis by (simp add: blade_slot_def)
  next
    case (PStr s)
    with Some py_int_str_cases [of s] show ?thesis
      by (auto simp: blade_slot_def)
  next
    case (PInt n)
    with Some show ?thesis by (simp add: blade_slot_def)
  qed
qed

lemma chassis_populated_direct_map:
  "chassis_populated_slots_details resp = Inr (direct_map resp)"
  by (simp add: direct_map_def chassis_populated_slots_details_def populate_loop_eq)

lemma blades_populated_direct_map:
  "blades_populated_slots_details resp = Inr (blades_direct_map resp)"
  by (simp add: blades_direct_map_def blades_populated_slots_details_def populate_loop_eq)

lemma chassis_chassis_eq:
  "chassis_chassis ch resp msc =
     Inr (slot_rows ch (expanded_slots_details (total_slots ch) (direct_map resp)),
          update_summary ch (direct_map resp) msc)"
  by (simp add: chassis_chassis_def chassis_populated_direct_map)

lemma blades_chassis_eq:
  "blades_chassis ch resp = Inr (slot_rows ch (blades_direct_map resp))"
  by (simp add: blades_chassis_def blades_populated_direct_map)

subsection \<open>Dictionaries\<close>

lemma dict_get_set: "dict_get (dict_set k v d) k' = (if k' = k then Some v else dict_get d k')"
  by (induction d) (auto simp: dict_get_def)

lemma dict_get_setdefault:
  "dict_get (dict_setdefault k v d) k' =
     (if k' = k \<and> dict_get d k = None then Some v else dict_get d k')"
  by (auto simp: dict_setdefault_def dict_get_def map_add_def split: option.splits)

lemma sum_dict_set:
  "sum_list (map snd (dict_set k v d)) =
     sum_list (map snd d) - (case dict_get d k of Some old \<Rightarrow> old | None \<Rightarrow> 0) + (v::int)"
  by (induction d) (auto simp: dict_get_def)

lemma keys_dict_set:
  "map fst (dict_set k v d) = (if k \<in> set (map fst d) then map fst d else map fst d @ [k])"
  by (induction d) auto

lemma distinct_dict_set: "distinct (map fst d) \<Longrightarrow> distinct (map fst (dict_set k v d))"
  by (simp add: keys_dict_set)

subsection \<open>The summary counter\<close>

lemma sum_count_status: "sum_list (map snd (count_status s n c)) = sum_list (map snd c) + n"
  by (cases "dict_get c s")
     (simp_all add: count_status_def Let_def sum_dict_set dict_get_setdefault,
      simp_all add: dict_setdefault_def)

lemma sum_count_blades:
  "sum_list (map snd (count_blades s pop c)) = sum_list (map snd c) + int (length pop)"
  by (induction pop arbitrary: c) (simp_all add: sum_count_status)

lemma sum_count_empty:
  "sum_list (map snd (count_empty t pop c)) =
     sum_list (map snd c) + max 0 (t - slots_occupied_by_blades pop)"
  by (simp add: count_empty_def Let_def sum_count_status)

lemma count_sum_update_summary:
  "count_sum (update_summary ch pop msc) m =
     count_sum msc m + (if m = chassis_model_str ch then chassis_counted ch pop else 0)"
proof (cases "dict_get msc (chassis_model_str ch)")
  case None
  then show ?thesis
    by (simp add: count_sum_def update_summary_def Let_def dict_get_set dict_get_setdefault
        sum_count_empty sum_count_blades chassis_counted_def)
next
  case (Some c)
  then show ?thesis
    by (simp add: count_sum_def update_summary_def Let_def dict_get_set dict_get_setdefault
        sum_count_empty sum_count_blades chassis_counted_def)
qed

lemma chassis_for_loop_count_sum:
  "count_sum (snd (snd (chassis_for_loop w msc fleet))) m = count_sum msc m + fleet_counted m fleet"
proof (induction fleet arbitrary: w msc)
  case Nil
  show ?case by simp
next
  case (Cons p fleet)
  obtain ch resp where p: "p = (ch, resp)" by (cases p)
  show ?case
    by (simp add: p chassis_chassis_eq Cons.IH count_sum_update_summary)
qed

lemma count_sum_model_summary_counts:
  "count_sum (model_summary_counts fleet) m = fleet_counted m fleet"
proof -
  have "count_sum [] m = 0" by (simp add: count_sum_def dict_get_def)
  then show ?thesis by (simp add: model_summary_counts_def chassis_for_loop_count_sum)
qed

lemma slots_occupied_eq:
  "slots_occupied_by_blades pop = int (length pop) + two_slot_blades pop"
  by (induction pop rule: two_slot_blades.induct) simp_all

subsection \<open>The slot rows\<close>

lemma Slot_slot_row: "Slot (slot_row ch slots n) = PInt n"
  by (simp add: slot_row_def split: option.splits)

lemma map_Slot_slot_rows: "map Slot (slot_rows ch slots) = map PInt [1..total_slots ch]"
  by (simp add: slot_rows_def Slot_slot_row)

lemma length_slot_rows: "length (slot_rows ch slots) = nat (total_slots ch)"
  by (simp add: slot_rows_def)

lemma nth_slot_rows:
  assumes "1 \<le> n" and "n \<le> total_slots ch"
  shows "slot_rows ch slots ! nat (n - 1) = slot_row ch slots n"
proof -
  have "nat (n - 1) < length [1..total_slots ch]" using assms by simp
  moreover have "[1..total_slots ch] ! nat (n - 1) = n" using assms by simp
  ultimately show ?thesis by (simp add: slot_rows_def)
qed

lemma total_slots_lookup:
  "total_slots ch =
     (case dict_get CHASSIS_SLOT_COUNTS (chassis_model_str ch) of Some n \<Rightarrow> n | None \<Rightarrow> 8)"
  by (simp add: total_slots_def DEFAULT_SLOT_COUNT_def split: option.splits)

lemma total_slots_8: "total_slots ch = 8"
  by (simp add: total_slots_def DEFAULT_SLOT_COUNT_def CHASSIS_SLOT_COUNTS_def dict_get_def)

lemma blades_for_loop_Slot:
  "map Slot (blades_for_loop w fleet) =
     map Slot w @ concat (map (\<lambda>(ch, resp). map PInt [1..total_slots ch]) fleet)"
proof (induction fleet arbitrary: w)
  case Nil
  show ?case by simp
next
  case (Cons p fleet)
  obtain ch resp where p: "p = (ch, resp)" by (cases p)
  show ?case by (simp add: p Cons.IH blades_chassis_eq map_Slot_slot_rows)
qed

lemma chassis_for_loop_Slot:
  "map Slot (fst (snd (chassis_for_loop w msc fleet))) =
     map Slot w @ concat (map (\<lambda>(ch, resp). map PInt [1..total_slots ch]) fleet)"
proof (induction fleet arbitrary: w msc)
  case Nil
  show ?case by simp
next
  case (Cons p fleet)
  obtain ch resp where p: "p = (ch, resp)" by (cases p)
  show ?case by (simp add: p Cons.IH chassis_chassis_eq map_Slot_slot_rows)
qed

lemma filter_eq_upto: "filter (\<lambda>k. k = n) [i..j] = (if i \<le> n \<and> n \<le> j then [n] else [])"
proof (induction i j rule: upto.induct)
  case (1 i j)
  show ?case
  proof (cases "i \<le> j")
    case True
    then have "[i..j] = i # [i + 1..j]" by (simp add: upto_rec1)
    with True 1 show ?thesis by auto
  next
    case False
    then show ?thesis by simp
  qed
qed

lemma filter_Slot_slot_rows:
  "filter (\<lambda>r. Slot r = PInt n) (slot_rows ch slots) =
     (if 1 \<le> n \<and> n \<le> total_slots ch then [slot_row ch slots n] else [])"
  by (simp add: slot_rows_def filter_map o_def Slot_slot_row filter_eq_upto)

lemma row_as_claimed_slot_row:
  "row_as_claimed (reported_chassis_oper_state ch) (dict_get slots n) (slot_row ch slots n)"
  by (simp add: row_as_claimed_def slot_row_def split: option.splits)

subsection \<open>The direct-assignment map\<close>

lemma dict_get_foldl_other:
  "\<forall>b \<in> set bs. blade_slot b \<noteq> Some n \<Longrightarrow>
     dict_get (foldl (populate_step mk) p bs) n = dict_get p n"
proof (induction bs arbitrary: p)
  case Nil
  show ?case by simp
next
  case (Cons b bs)
  then show ?case
    by (cases "blade_slot b") (simp_all add: populate_step_def dict_get_set)
qed

lemma dict_get_foldl_last:
  assumes "blade_slot b = Some n" and "\<forall>b' \<in> set bs2. blade_slot b' \<noteq> Some n"
  shows "dict_get (foldl (populate_step mk) p (bs1 @ b # bs2)) n = Some (mk b)"
  using assms by (simp add: dict_get_foldl_other populate_step_def dict_get_set)

lemma foldl_populate_skip:
  "blade_slot b = None \<Longrightarrow>
     foldl (populate_step mk) p (bs1 @ b # bs2) = foldl (populate_step mk) p (bs1 @ bs2)"
  by (simp add: populate_step_def)

lemma distinct_foldl_populate:
  "distinct (map fst p) \<Longrightarrow> distinct (map fst (foldl (populate_step mk) p bs))"
proof (induction bs arbitrary: p)
  case Nil
  then show ?case by simp
next
  case (Cons b bs)
  then show ?case
    by (cases "blade_slot b") (simp_all add: populate_step_def distinct_dict_set)
qed

lemma distinct_direct_map: "distinct (map fst (direct_map resp))"
  by (simp add: direct_map_def chassis_populated_slots_details_def populate_loop_eq
      distinct_foldl_populate)

subsection \<open>The expansion\<close>

lemma dict_get_expand_loop:
  "dict_get (expand_loop tot acc (xs @ [e])) k =
     (if writes tot k e then Some (snd e) else dict_get (expand_loop tot acc xs) k)"
proof (induction xs arbitrary: acc)
  case Nil
  show ?case
    by (cases e) (auto simp: writes_def Let_def dict_get_set)
next
  case (Cons x xs)
  show ?case by (cases x) (simp add: Let_def Cons.IH)
qed

lemma expand_loop_append:
  "expand_loop tot acc (xs @ ys) = expand_loop tot (expand_loop tot acc xs) ys"
proof (induction xs arbitrary: acc)
  case Nil
  show ?case by simp
next
  case (Cons x xs)
  show ?case by (cases x) (simp add: Let_def Cons.IH)
qed

lemma dict_get_expand_loop_none:
  "\<forall>e \<in> set ys. \<not> writes tot k e \<Longrightarrow> dict_get (expand_loop tot acc ys) k = dict_get acc k"
proof (induction ys rule: rev_induct)
  case Nil
  show ?case by simp
next
  case (snoc y ys)
  then show ?case by (simp add: dict_get_expand_loop)
qed

lemma dict_get_expand_loop_last:
  assumes "writes tot k e" and "\<forall>e' \<in> set ys. \<not> writes tot k e'"
  shows "dict_get (expand_loop tot acc (xs @ e # ys)) k = Some (snd e)"
proof -
  have "expand_loop tot acc (xs @ e # ys) = expand_loop tot (expand_loop tot acc (xs @ [e])) ys"
    using expand_loop_append [of tot acc "xs @ [e]" ys] by simp
  with assms show ?thesis
    by (simp add: dict_get_expand_loop_none dict_get_expand_loop)
qed

lemma dict_get_expand_loop_Some:
  "dict_get (expand_loop tot acc pop) k = Some d \<Longrightarrow>
     dict_get acc k = Some d \<or> (\<exists>e \<in> set pop. writes tot k e \<and> snd e = d)"
proof (induction pop arbitrary: d rule: rev_induct)
  case Nil
  then show ?case by simp
next
  case (snoc e pop)
  then show ?case
    by (auto simp: dict_get_expand_loop split: if_splits)
qed

subsection \<open>The blade loop on slot values of any type\<close>

lemma populate_blade_any_Inr:
  "blade_raises b = None \<Longrightarrow> \<exists>q. populate_blade_any mk p b = Inr q"
  by (auto simp: populate_blade_any_def blade_raises_def split: option.splits sum.splits error.splits if_splits)

lemma populate_loop_any_Inr:
  "\<forall>b \<in> set bs. blade_raises b = None \<Longrightarrow> \<exists>q. populate_loop_any mk p bs = Inr q"
proof (induction bs arbitrary: p)
  case Nil
  show ?case by simp
next
  case (Cons b bs)
  then obtain q where "populate_blade_any mk p b = Inr q"
    using populate_blade_any_Inr [of b mk p] by auto
  with Cons show ?case by simp
qed

lemma populate_blade_any_skip:
  assumes "b_slot_id b = None \<or> b_slot_id b = Some (Val PNone) \<or>
           (\<exists>v. b_slot_id b = Some v \<and> py_int_any v = Inl ValueError)"
  shows "populate_blade_any mk p b = Inr p"
  using assms by (auto simp: populate_blade_any_def)

lemma blade_raises_skip:
  assumes "b_slot_id b = None \<or> b_slot_id b = Some (Val PNone) \<or>
           (\<exists>v. b_slot_id b = Some v \<and> py_int_any v = Inl ValueError)"
  shows "blade_raises b = None"
  using assms by (auto simp: blade_raises_def)

lemma populate_loop_any_skip:
  assumes "\<And>q. populate_blade_any mk q b = Inr q"
  shows "populate_loop_any mk p (bs1 @ b # bs2) = populate_loop_any mk p (bs1 @ bs2)"
proof (induction bs1 arbitrary: p)
  case Nil
  show ?case by (simp add: assms)
next
  case (Cons a bs1)
  show ?case by (simp add: Cons.IH split: sum.splits)
qed

lemma populate_blade_untyped:
  assumes "\<And>b. mk' (untyped b) = mk b"
  shows "populate_blade_any mk' p (untyped b) = populate_blade mk p b"
proof (cases "b_slot_id b")
  case None
  then show ?thesis by (simp add: populate_blade_any_def populate_blade_def untyped_def)
next
  case (Some v)
  have m: "mk' \<lparr>b_slot_id = Some (Val v), b_moid = b_moid b, b_model = b_model b,
      b_serial = b_serial b\<rparr> = mk b"
    using assms [of b] Some by (simp add: untyped_def)
  from Some show ?thesis
    by (auto simp: populate_blade_any_def populate_blade_def untyped_def m
        split: sum.splits error.splits)
qed

lemma populate_loop_untyped:
  assumes "\<And>b. mk' (untyped b) = mk b"
  shows "populate_loop_any mk' p (map untyped bs) = populate_loop mk p bs"
  by (induction bs arbitrary: p)
     (simp_all add: populate_blade_untyped [of mk' mk, OF assms] split: sum.splits)

lemma blades_details_untyped: "blades_details (untyped b) = blades_details b"
  by (simp add: blades_details_def untyped_def)

lemma chassis_details_untyped: "chassis_details (untyped b) = chassis_details b"
  by (simp add: chassis_details_def untyped_def)

lemma blades_chassis_any_untyped:
  "blades_chassis_any ch (Results (Some (map untyped bs))) = blades_chassis ch (Results (Some bs))"
  by (simp add: blades_chassis_any_def blades_chassis_def blades_populated_slots_details_any_def
      blades_populated_slots_details_def populate_loop_untyped [of blades_details blades_details]
      blades_details_untyped)

lemma chassis_chassis_any_untyped:
  "chassis_chassis_any ch (Results (Some (map untyped bs))) msc
     = chassis_chassis ch (Results (Some bs)) msc"
  by (simp add: chassis_chassis_any_def chassis_chassis_def chassis_populated_slots_details_any_def
      chassis_populated_slots_details_def populate_loop_untyped [of chassis_details chassis_details]
      chassis_details_untyped)

section \<open>The claims\<close>

text \<open>
  C1, as stated: in chassis.py, for each chassis model, the counts of all status labels
  (with "Empty") add up to the sum of \<open>total_slots\<close> over the chassis of that model, for
  every fleet, also with two-slot blades. It fails on the scenario fleet: one chassis of 8
  slots with one two-slot blade in slot 3 is counted as 1 blade and 6 empty slots, 7 in
  all.
\<close>

theorem summary_counts_sum_counterexample:
  "count_sum (model_summary_counts [(scenario_chassis, Results (Some [scenario_blade]))])
     (PStr ''UCSB-5108-AC2'') = 7
   \<and> total_slots_sum (PStr ''UCSB-5108-AC2'')
        [(scenario_chassis, Results (Some [scenario_blade]))] = 8"
  by code_simp

text \<open>
  C1, amended: when on every chassis of the model the slots taken by its blades (2 for a
  two-slot model, 1 otherwise) do not exceed \<open>total_slots\<close>, the counts of all status
  labels of that model add up to the sum of \<open>total_slots\<close> over the chassis of that model
  minus the number of their two-slot blades: a blade is counted once, whatever its width.
\<close>

theorem summary_counts_sum:
  assumes "\<forall>(ch, resp) \<in> set fleet.
             chassis_model_str ch = m \<longrightarrow>
             slots_occupied_by_blades (direct_map resp) \<le> total_slots ch"
  shows "count_sum (model_summary_counts fleet) m = total_slots_sum m fleet - two_slot_sum m fleet"
proof -
  have "fleet_counted m fleet = total_slots_sum m fleet - two_slot_sum m fleet"
    using assms
  proof (induction fleet)
    case Nil
    show ?case by simp
  next
    case (Cons p fleet)
    obtain ch resp where p: "p = (ch, resp)" by (cases p)
    from Cons.prems have rest: "\<forall>(ch, resp) \<in> set fleet.
             chassis_model_str ch = m \<longrightarrow>
             slots_occupied_by_blades (direct_map resp) \<le> total_slots ch"
      by simp
    show ?case
    proof (cases "chassis_model_str ch = m")
      case True
      with Cons.prems p
      have "slots_occupied_by_blades (direct_map resp) \<le> total_slots ch" by simp
      then have "chassis_counted ch (direct_map resp) =
                   total_slots ch - two_slot_blades (direct_map resp)"
        by (simp add: chassis_counted_def slots_occupied_eq)
      with True Cons.IH [OF rest] show ?thesis by (simp add: p)
    next
      case False
      with Cons.IH [OF rest] show ?thesis by (simp add: p)
    qed
  qed
  then show ?thesis by (simp add: count_sum_model_summary_counts)
qed

theorem summary_counts_sum_witness:
  "count_sum (model_summary_counts
      [(scenario_chassis, Results (Some [scenario_blade])),
       (scenario_chassis,
        Results (Some [scenario_blade\<lparr>b_model := Some (PStr ''UCSB-B200-M5'')\<rparr>]))])
     (PStr ''UCSB-5108-AC2'') = 15"
proof -
  let ?fleet = "[(scenario_chassis, Results (Some [scenario_blade])),
       (scenario_chassis,
        Results (Some [scenario_blade\<lparr>b_model := Some (PStr ''UCSB-B200-M5'')\<rparr>]))]"
  have h: "\<forall>(ch, resp) \<in> set ?fleet.
             chassis_model_str ch = PStr ''UCSB-5108-AC2'' \<longrightarrow>
             slots_occupied_by_blades (direct_map resp) \<le> total_slots ch"
    by code_simp
  have v: "total_slots_sum (PStr ''UCSB-5108-AC2'') ?fleet
             - two_slot_sum (PStr ''UCSB-5108-AC2'') ?fleet = 15"
    by code_simp
  show ?thesis using summary_counts_sum [OF h] v by simp
qed

text \<open>
  C2: in both scripts every chassis gets exactly \<open>total_slots\<close> rows, for the slots 1 to
  \<open>total_slots\<close> in ascending order, whatever blades were reported; \<open>total_slots\<close> is the
  entry of the capacity table for the chassis model, or 8 when the table has none. The
  last two parts say the same of the whole run: after the header, the \<open>Slot\<close> column is
  the range of each chassis in turn.
\<close>

theorem chassis_emits_total_slots_rows:
  "(\<exists>rows. blades_chassis ch resp = Inr rows
       \<and> map Slot rows = map PInt [1..total_slots ch] \<and> int (length rows) = total_slots ch)
   \<and> (\<exists>rows msc'. chassis_chassis ch resp msc = Inr (rows, msc')
       \<and> map Slot rows = map PInt [1..total_slots ch] \<and> int (length rows) = total_slots ch)
   \<and> total_slots ch =
       (case dict_get CHASSIS_SLOT_COUNTS (chassis_model_str ch) of Some n \<Rightarrow> n | None \<Rightarrow> 8)
   \<and> map Slot (blades_for_loop [fieldnames] fleet) =
       PStr ''Slot'' # concat (map (\<lambda>(ch, resp). map PInt [1..total_slots ch]) fleet)
   \<and> map Slot (fst (snd (chassis_for_loop [fieldnames] [] fleet))) =
       PStr ''Slot'' # concat (map (\<lambda>(ch, resp). map PInt [1..total_slots ch]) fleet)"
proof -
  have len: "int (length (slot_rows ch slots)) = total_slots ch" for slots
    by (simp add: length_slot_rows total_slots_8)
  have a: "\<exists>rows. blades_chassis ch resp = Inr rows
       \<and> map Slot rows = map PInt [1..total_slots ch] \<and> int (length rows) = total_slots ch"
    by (simp add: blades_chassis_eq map_Slot_slot_rows len)
  have b: "\<exists>rows msc'. chassis_chassis ch resp msc = Inr (rows, msc')
       \<and> map Slot rows = map PInt [1..total_slots ch] \<and> int (length rows) = total_slots ch"
    by (simp add: chassis_chassis_eq map_Slot_slot_rows len)
  have c: "Slot fieldnames = PStr ''Slot''" by (simp add: fieldnames_def)
  show ?thesis
    using a b c total_slots_lookup [of ch] blades_for_loop_Slot [of "[fieldnames]" fleet]
      chassis_for_loop_Slot [of "[fieldnames]" "[]" fleet]
    by simp
qed

text \<open>
  C3: a chassis of model "UCSB-5108-AC2" in state "operable" with one blade, in slot 3, of
  the two-slot model "UCSX-410C-M7" and serial "SN1". chassis.py writes that model,
  serial and state in the rows of slots 3 and 4 and leaves slots 1, 2, 5, 6, 7, 8 empty;
  blades.py fills slot 3 only.
\<close>

theorem two_slot_scenario_rows:
  assumes "c_model ch = Some (PStr ''UCSB-5108-AC2'')"
    and "c_oper_state ch = Some (PStr ''operable'')"
    and "b_slot_id b = Some (PInt 3)"
    and "b_model b = Some (PStr ''UCSX-410C-M7'')"
    and "b_serial b = Some (PStr ''SN1'')"
  shows "(\<exists>rows msc'. chassis_chassis ch (Results (Some [b])) msc = Inr (rows, msc')
          \<and> map slot_cells rows =
              [(PInt 1, PStr [], PStr [], PStr ''Empty''),
               (PInt 2, PStr [], PStr [], PStr ''Empty''),
               (PInt 3, PStr ''UCSX-410C-M7'', PStr ''SN1'', PStr ''operable''),
               (PInt 4, PStr ''UCSX-410C-M7'', PStr ''SN1'', PStr ''operable''),
               (PInt 5, PStr [], PStr [], PStr ''Empty''),
               (PInt 6, PStr [], PStr [], PStr ''Empty''),
               (PInt 7, PStr [], PStr [], PStr ''Empty''),
               (PInt 8, PStr [], PStr [], PStr ''Empty'')])
       \<and> (\<exists>rows. blades_chassis ch (Results (Some [b])) = Inr rows
          \<and> map slot_cells rows =
              [(PInt 1, PStr [], PStr [], PStr ''Empty''),
               (PInt 2, PStr [], PStr [], PStr ''Empty''),
               (PInt 3, PStr ''UCSX-410C-M7'', PStr ''SN1'', PStr ''operable''),
               (PInt 4, PStr [], PStr [], PStr ''Empty''),
               (PInt 5, PStr [], PStr [], PStr ''Empty''),
               (PInt 6, PStr [], PStr [], PStr ''Empty''),
               (PInt 7, PStr [], PStr [], PStr ''Empty''),
               (PInt 8, PStr [], PStr [], PStr ''Empty'')])"
proof -
  have st: "reported_chassis_oper_state ch = ''operable''"
    using assms(2) by (simp add: reported_chassis_oper_state_def py_strip_def py_isspace_def)
  have up: "[1..8] = [1, 2, 3, 4, 5, 6, 7, 8::int]"
    by code_simp
  have two: "two_slot \<lparr>model = PStr ''UCSX-410C-M7'', serial = PStr ''SN1''\<rparr>"
    by (simp add: two_slot_def TWO_SLOT_MODELS_def)
  have cd: "chassis_populated_slots_details (Results (Some [b])) =
              Inr [(3, \<lparr>model = PStr ''UCSX-410C-M7'', serial = PStr ''SN1''\<rparr>)]"
    using assms(3-5)
    by (simp add: chassis_populated_slots_details_def populate_blade_def chassis_details_def)
  have bd: "blades_populated_slots_details (Results (Some [b])) =
              Inr [(3, \<lparr>model = PStr ''UCSX-410C-M7'', serial = PStr ''SN1''\<rparr>)]"
    using assms(3-5)
    by (simp add: blades_populated_slots_details_def populate_blade_def blades_details_def)
  have ex: "expanded_slots_details 8 [(3, \<lparr>model = PStr ''UCSX-410C-M7'', serial = PStr ''SN1''\<rparr>)] =
              [(3, \<lparr>model = PStr ''UCSX-410C-M7'', serial = PStr ''SN1''\<rparr>),
               (4, \<lparr>model = PStr ''UCSX-410C-M7'', serial = PStr ''SN1''\<rparr>)]"
    using two by (simp add: expanded_slots_details_def Let_def)
  have c: "\<exists>rows msc'. chassis_chassis ch (Results (Some [b])) msc = Inr (rows, msc')
          \<and> map slot_cells rows =
              [(PInt 1, PStr [], PStr [], PStr ''Empty''),
               (PInt 2, PStr [], PStr [], PStr ''Empty''),
               (PInt 3, PStr ''UCSX-410C-M7'', PStr ''SN1'', PStr ''operable''),
               (PInt 4, PStr ''UCSX-410C-M7'', PStr ''SN1'', PStr ''operable''),
               (PInt 5, PStr [], PStr [], PStr ''Empty''),
               (PInt 6, PStr [], PStr [], PStr ''Empty''),
               (PInt 7, PStr [], PStr [], PStr ''Empty''),
               (PInt 8, PStr [], PStr [], PStr ''Empty'')]"
    by (simp add: chassis_chassis_def cd total_slots_8 ex slot_rows_def up slot_row_def
        dict_get_def slot_cells_def st)
  have d: "\<exists>rows. blades_chassis ch (Results (Some [b])) = Inr rows
          \<and> map slot_cells rows =
              [(PInt 1, PStr [], PStr [], PStr ''Empty''),
               (PInt 2, PStr [], PStr [], PStr ''Empty''),
               (PInt 3, PStr ''UCSX-410C-M7'', PStr ''SN1'', PStr ''operable''),
               (PInt 4, PStr [], PStr [], PStr ''Empty''),
               (PInt 5, PStr [], PStr [], PStr ''Empty''),
               (PInt 6, PStr [], PStr [], PStr ''Empty''),
               (PInt 7, PStr [], PStr [], PStr ''Empty''),
               (PInt 8, PStr [], PStr [], PStr ''Empty'')]"
    by (simp add: blades_chassis_def bd total_slots_8 slot_rows_def up slot_row_def
        dict_get_def slot_cells_def st)
  from c d show ?thesis by blast
qed

text \<open>The scenario's chassis and blade meet the hypotheses.\<close>

theorem two_slot_scenario_rows_witness:
  "(\<exists>rows msc'. chassis_chassis scenario_chassis (Results (Some [scenario_blade])) [] = Inr (rows, msc')
          \<and> map slot_cells rows =
              [(PInt 1, PStr [], PStr [], PStr ''Empty''),
               (PInt 2, PStr [], PStr [], PStr ''Empty''),
               (PInt 3, PStr ''UCSX-410C-M7'', PStr ''SN1'', PStr ''operable''),
               (PInt 4, PStr ''UCSX-410C-M7'', PStr ''SN1'', PStr ''operable''),
               (PInt 5, PStr [], PStr [], PStr ''Empty''),
               (PInt 6, PStr [], PStr [], PStr ''Empty''),
               (PInt 7, PStr [], PStr [], PStr ''Empty''),
               (PInt 8, PStr [], PStr [], PStr ''Empty'')])
       \<and> (\<exists>rows. blades_chassis scenario_chassis (Results (Some [scenario_blade])) = Inr rows
          \<and> map slot_cells rows =
              [(PInt 1, PStr [], PStr [], PStr ''Empty''),
               (PInt 2, PStr [], PStr [], PStr ''Empty''),
               (PInt 3, PStr ''UCSX-410C-M7'', PStr ''SN1'', PStr ''operable''),
               (PInt 4, PStr [], PStr [], PStr ''Empty''),
               (PInt 5, PStr [], PStr [], PStr ''Empty''),
               (PInt 6, PStr [], PStr [], PStr ''Empty''),
               (PInt 7, PStr [], PStr [], PStr ''Empty''),
               (PInt 8, PStr [], PStr [], PStr ''Empty'')])"
proof -
  have h1: "c_model scenario_chassis = Some (PStr ''UCSB-5108-AC2'')"
    by (simp add: scenario_chassis_def)
  have h2: "c_oper_state scenario_chassis = Some (PStr ''operable'')"
    by (simp add: scenario_chassis_def)
  have h3: "b_slot_id scenario_blade = Some (PInt 3)"
    by (simp add: scenario_blade_def)
  have h4: "b_model scenario_blade = Some (PStr ''UCSX-410C-M7'')"
    by (simp add: scenario_blade_def)
  have h5: "b_serial scenario_blade = Some (PStr ''SN1'')"
    by (simp add: scenario_blade_def)
  show ?thesis by (rule two_slot_scenario_rows [OF h1 h2 h3 h4 h5])
qed

text \<open>
  C4: for every slot from 1 to \<open>total_slots\<close>, the row of the slot (the row at index
  slot - 1) carries the slot number and reads as follows. If the slot is claimed in the
  map the script looks it up in (the direct map in blades.py, the expanded map in
  chassis.py), \<open>OperState\<close> is the normalized state of the chassis and \<open>BladeModel\<close>,
  \<open>BladeSerial\<close> are the model and serial stored for the slot; otherwise \<open>BladeModel\<close>
  and \<open>BladeSerial\<close> are empty strings and \<open>OperState\<close> is "Empty".
\<close>

theorem slot_row_contents:
  assumes "1 \<le> n" and "n \<le> total_slots ch"
  shows "(\<exists>populated rows.
            blades_populated_slots_details resp = Inr populated
          \<and> blades_chassis ch resp = Inr rows
          \<and> Slot (rows ! nat (n - 1)) = PInt n
          \<and> row_as_claimed (reported_chassis_oper_state ch) (dict_get populated n)
               (rows ! nat (n - 1)))
       \<and> (\<exists>populated rows msc'.
            chassis_populated_slots_details resp = Inr populated
          \<and> chassis_chassis ch resp msc = Inr (rows, msc')
          \<and> Slot (rows ! nat (n - 1)) = PInt n
          \<and> row_as_claimed (reported_chassis_oper_state ch)
               (dict_get (expanded_slots_details (total_slots ch) populated) n)
               (rows ! nat (n - 1)))"
  using assms
  by (simp add: blades_populated_direct_map blades_chassis_eq chassis_populated_direct_map
      chassis_chassis_eq nth_slot_rows Slot_slot_row row_as_claimed_slot_row)

text \<open>Slot 4 of the scenario: empty in blades.py, claimed by expansion in chassis.py.\<close>

theorem slot_row_contents_witness:
  "(\<exists>populated rows.
      blades_populated_slots_details (Results (Some [scenario_blade])) = Inr populated
    \<and> blades_chassis scenario_chassis (Results (Some [scenario_blade])) = Inr rows
    \<and> Slot (rows ! 3) = PInt 4
    \<and> row_as_claimed ''operable'' (dict_get populated 4) (rows ! 3))
   \<and> (\<exists>populated rows msc'.
      chassis_populated_slots_details (Results (Some [scenario_blade])) = Inr populated
    \<and> chassis_chassis scenario_chassis (Results (Some [scenario_blade])) [] = Inr (rows, msc')
    \<and> Slot (rows ! 3) = PInt 4
    \<and> row_as_claimed ''operable'' (dict_get (expanded_slots_details 8 populated) 4) (rows ! 3))"
proof -
  have t: "total_slots scenario_chassis = 8" by (rule total_slots_8)
  have s: "reported_chassis_oper_state scenario_chassis = ''operable''" by code_simp
  have n: "nat (4 - 1) = 3" by simp
  show ?thesis
    using slot_row_contents [of 4 scenario_chassis "Results (Some [scenario_blade])" "[]"]
    unfolding t s n by simp
qed

text \<open>
  C5: the normalization of the chassis state, for every chassis record. A string that is
  not empty after trimming gives its trimmed value ("  Operable  " gives "Operable"); a
  string that is empty or all whitespace gives "operable"; \<open>None\<close> gives
  "NotReported (ChassisState_is_None)"; a record without the field gives
  "UnknownChassisState".
\<close>

theorem oper_state_normalization:
  "reported_chassis_oper_state (ch\<lparr>c_oper_state := Some (PStr s)\<rparr>) =
     (if py_strip s \<noteq> [] then py_strip s else ''operable'')
   \<and> reported_chassis_oper_state (ch\<lparr>c_oper_state := Some PNone\<rparr>) =
       ''NotReported (ChassisState_is_None)''
   \<and> reported_chassis_oper_state (ch\<lparr>c_oper_state := None\<rparr>) = ''UnknownChassisState''
   \<and> reported_chassis_oper_state (ch\<lparr>c_oper_state := Some (PStr ''  Operable  '')\<rparr>) = ''Operable''
   \<and> reported_chassis_oper_state (ch\<lparr>c_oper_state := Some (PStr [])\<rparr>) = ''operable''
   \<and> reported_chassis_oper_state (ch\<lparr>c_oper_state := Some (PStr ''   '')\<rparr>) = ''operable''"
  by (simp add: reported_chassis_oper_state_def py_strip_def py_isspace_def)

text \<open>
  C6: what the expanded map of chassis.py holds at a slot is an entry of the direct map at
  that slot, or the entry of a two-slot blade at the slot before, and the latter only for
  a slot that does not exceed \<open>total_slots\<close>. So a slot beyond \<open>total_slots\<close> that no
  blade reports is not claimed by expansion, also when a two-slot blade sits in the last
  slot.
\<close>

theorem expansion_within_total_slots:
  "(dict_get (expanded_slots_details tot populated) k = Some d \<longrightarrow>
      (k, d) \<in> set populated \<or> (two_slot d \<and> (k - 1, d) \<in> set populated \<and> k \<le> tot))
   \<and> (tot < k \<and> dict_get populated k = None \<longrightarrow>
      dict_get (expanded_slots_details tot populated) k = None)"
proof -
  have a: "(k, d) \<in> set populated \<or> (two_slot d \<and> (k - 1, d) \<in> set populated \<and> k \<le> tot)"
    if "dict_get (expanded_slots_details tot populated) k = Some d" for d
  proof -
    from that dict_get_expand_loop_Some [of tot "[]" populated k d]
    obtain e where e: "e \<in> set populated" "writes tot k e" "snd e = d"
      by (auto simp: expanded_slots_details_def dict_get_def)
    obtain s where s: "e = (s, d)" using e(3) by (cases e) simp
    from e(2) s have "s = k \<or> (two_slot d \<and> s = k - 1 \<and> k \<le> tot)"
      by (auto simp: writes_def)
    with e(1) s show ?thesis by auto
  qed
  have b: "dict_get (expanded_slots_details tot populated) k = None"
    if "tot < k" and "dict_get populated k = None"
  proof (cases "dict_get (expanded_slots_details tot populated) k")
    case None
    then show ?thesis .
  next
    case (Some d)
    from a [OF Some] that(1) have "(k, d) \<in> set populated" by auto
    then have "k \<in> fst ` set populated" by force
    with that(2) show ?thesis by (simp add: dict_get_def map_of_eq_None_iff)
  qed
  from a b show ?thesis by blast
qed

text \<open>
  A two-slot blade in slot 8 of 8 claims no slot 9; in slot 7 it claims slot 8.
\<close>

theorem expansion_within_total_slots_witness:
  "dict_get (expanded_slots_details 8 [(8, blades_details scenario_blade)]) 9 = None
   \<and> dict_get (expanded_slots_details 8 [(7, blades_details scenario_blade)]) 8
       = Some (blades_details scenario_blade)
   \<and> two_slot (blades_details scenario_blade)
   \<and> (7, blades_details scenario_blade) \<in> set [(7, blades_details scenario_blade)]"
proof -
  let ?d = "blades_details scenario_blade"
  have c: "dict_get (expanded_slots_details 8 [(7, ?d)]) 8 = Some ?d" by code_simp
  have n: "(8, ?d) \<notin> set [(7::int, ?d)]" by simp
  have h: "(8::int) < 9 \<and> dict_get [(8::int, ?d)] 9 = None"
    by (simp add: dict_get_def)
  from expansion_within_total_slots [of 8 "[(8, ?d)]" 9] h
  have a: "dict_get (expanded_slots_details 8 [(8, ?d)]) 9 = None"
    by blast
  from expansion_within_total_slots [of 8 "[(7, ?d)]" 8 ?d] c n
  have b: "two_slot ?d \<and> (7, ?d) \<in> set [(7, ?d)]"
    by auto
  from a b c show ?thesis by blast
qed

text \<open>
  C7: when several blades of a chassis report the same slot, the last of them in the
  input order (\<open>b\<close>, with no blade after it reporting slot \<open>n\<close>) gives the model and
  serial of the slot in the direct-assignment map, in both scripts, whatever blades came
  earlier. The chassis gets exactly one row for the slot when the slot is one of
  1 to \<open>total_slots\<close> (and none otherwise).
\<close>

theorem duplicate_slot_last_wins:
  assumes "blade_slot b = Some n" and "\<forall>b' \<in> set later. blade_slot b' \<noteq> Some n"
  shows "(\<exists>populated rows.
            blades_populated_slots_details (Results (Some (earlier @ b # later))) = Inr populated
          \<and> dict_get populated n = Some (blades_details b)
          \<and> blades_chassis ch (Results (Some (earlier @ b # later))) = Inr rows
          \<and> length (filter (\<lambda>r. Slot r = PInt n) rows)
              = (if 1 \<le> n \<and> n \<le> total_slots ch then 1 else 0))
       \<and> (\<exists>populated rows msc'.
            chassis_populated_slots_details (Results (Some (earlier @ b # later))) = Inr populated
          \<and> dict_get populated n = Some (chassis_details b)
          \<and> chassis_chassis ch (Results (Some (earlier @ b # later))) msc = Inr (rows, msc')
          \<and> length (filter (\<lambda>r. Slot r = PInt n) rows)
              = (if 1 \<le> n \<and> n \<le> total_slots ch then 1 else 0))"
proof -
  let ?resp = "Results (Some (earlier @ b # later))"
  have bp: "blades_populated_slots_details ?resp
              = Inr (foldl (populate_step blades_details) [] (earlier @ b # later))"
    by (simp add: blades_populated_slots_details_def populate_loop_eq)
  have cp: "chassis_populated_slots_details ?resp
              = Inr (foldl (populate_step chassis_details) [] (earlier @ b # later))"
    by (simp add: chassis_populated_slots_details_def populate_loop_eq)
  have bl: "dict_get (foldl (populate_step blades_details) [] (earlier @ b # later)) n
              = Some (blades_details b)"
    using assms by (rule dict_get_foldl_last)
  have cl: "dict_get (foldl (populate_step chassis_details) [] (earlier @ b # later)) n
              = Some (chassis_details b)"
    using assms by (rule dict_get_foldl_last)
  have br: "blades_chassis ch ?resp = Inr (slot_rows ch (blades_direct_map ?resp))"
    by (rule blades_chassis_eq)
  have cr: "chassis_chassis ch ?resp msc =
     Inr (slot_rows ch (expanded_slots_details (total_slots ch) (direct_map ?resp)),
          update_summary ch (direct_map ?resp) msc)"
    by (rule chassis_chassis_eq)
  have one: "length (filter (\<lambda>r. Slot r = PInt n) (slot_rows ch slots))
              = (if 1 \<le> n \<and> n \<le> total_slots ch then 1 else 0)" for slots
    by (simp add: filter_Slot_slot_rows)
  show ?thesis
    unfolding bp cp br cr using bl cl one by simp
qed

text \<open>Two blades in slot 5, the second reporting it as the string "5".\<close>

theorem duplicate_slot_last_wins_witness:
  "(\<exists>populated rows.
      blades_populated_slots_details
        (Results (Some [scenario_blade\<lparr>b_slot_id := Some (PInt 5)\<rparr>,
                        scenario_blade\<lparr>b_slot_id := Some (PStr ''5''), b_serial := Some (PStr ''SN2'')\<rparr>]))
        = Inr populated
    \<and> dict_get populated 5 = Some \<lparr>model = PStr ''UCSX-410C-M7'', serial = PStr ''SN2''\<rparr>
    \<and> blades_chassis scenario_chassis
        (Results (Some [scenario_blade\<lparr>b_slot_id := Some (PInt 5)\<rparr>,
                        scenario_blade\<lparr>b_slot_id := Some (PStr ''5''), b_serial := Some (PStr ''SN2'')\<rparr>]))
        = Inr rows
    \<and> length (filter (\<lambda>r. Slot r = PInt 5) rows) = 1)
   \<and> (\<exists>populated rows msc'.
      chassis_populated_slots_details
        (Results (Some [scenario_blade\<lparr>b_slot_id := Some (PInt 5)\<rparr>,
                        scenario_blade\<lparr>b_slot_id := Some (PStr ''5''), b_serial := Some (PStr ''SN2'')\<rparr>]))
        = Inr populated
    \<and> dict_get populated 5 = Some \<lparr>model = PStr ''UCSX-410C-M7'', serial = PStr ''SN2''\<rparr>
    \<and> chassis_chassis scenario_chassis
        (Results (Some [scenario_blade\<lparr>b_slot_id := Some (PInt 5)\<rparr>,
                        scenario_blade\<lparr>b_slot_id := Some (PStr ''5''), b_serial := Some (PStr ''SN2'')\<rparr>]))
        [] = Inr (rows, msc')
    \<and> length (filter (\<lambda>r. Slot r = PInt 5) rows) = 1)"
proof -
  let ?b2 = "scenario_blade\<lparr>b_slot_id := Some (PStr ''5''), b_serial := Some (PStr ''SN2'')\<rparr>"
  have h1: "blade_slot ?b2 = Some 5" by code_simp
  have h2: "\<forall>b' \<in> set []. blade_slot b' \<noteq> Some 5" by simp
  have t: "total_slots scenario_chassis = 8" by (rule total_slots_8)
  have d1: "blades_details ?b2 = \<lparr>model = PStr ''UCSX-410C-M7'', serial = PStr ''SN2''\<rparr>"
    by code_simp
  have d2: "chassis_details ?b2 = \<lparr>model = PStr ''UCSX-410C-M7'', serial = PStr ''SN2''\<rparr>"
    by code_simp
  show ?thesis
    using duplicate_slot_last_wins [OF h1 h2, of "[scenario_blade\<lparr>b_slot_id := Some (PInt 5)\<rparr>]" scenario_chassis "[]"]
    unfolding t d1 d2 by simp
qed

text \<open>
  C8, as stated: a blade whose slot index is missing or cannot be parsed as an integer is
  left out of the reconciliation and never makes the reconciliation of the chassis raise.
  It fails for a slot index that \<open>int\<close> does not convert at all: on a list (or another
  object without a conversion) \<open>int\<close> raises \<open>TypeError\<close>, on a float infinity
  \<open>OverflowError\<close>. The \<open>except\<close> clause names \<open>ValueError\<close> only, so the exception
  leaves the blade loop and the body of the chassis loop, in both scripts.
\<close>

theorem slot_type_error_raises:
  "blades_chassis_any scenario_chassis
      (Results (Some [untyped scenario_blade, (untyped scenario_blade)\<lparr>b_slot_id := Some Other\<rparr>]))
     = Inl TypeError
   \<and> chassis_chassis_any scenario_chassis
      (Results (Some [untyped scenario_blade, (untyped scenario_blade)\<lparr>b_slot_id := Some Other\<rparr>])) []
     = Inl TypeError
   \<and> blades_chassis_any scenario_chassis
      (Results (Some [(untyped scenario_blade)\<lparr>b_slot_id := Some (Float FInf)\<rparr>]))
     = Inl OverflowError
   \<and> chassis_chassis_any scenario_chassis
      (Results (Some [(untyped scenario_blade)\<lparr>b_slot_id := Some (Float FInf)\<rparr>])) []
     = Inl OverflowError"
  by code_simp

text \<open>
  C8, amended: a blade whose slot index is missing (no \<open>slot_id\<close>, or \<open>None\<close>) or is a
  value on which \<open>int\<close> raises \<open>ValueError\<close> (a string that is not a decimal literal, a
  float NaN) is left out of the reconciliation. The pass over it leaves the map as it is
  and raises nothing; the direct-assignment maps, the rows and the summary counter are
  those of the blade list without it; and when no other blade of the list makes the loop
  raise, the chassis is processed without an exception, in both scripts.
\<close>

theorem slot_value_error_skipped:
  assumes "b_slot_id b = None \<or> b_slot_id b = Some (Val PNone) \<or>
           (\<exists>v. b_slot_id b = Some v \<and> py_int_any v = Inl ValueError)"
  shows "populate_blade_any mk populated b = Inr populated
       \<and> blades_populated_slots_details_any (Results (Some (bs1 @ b # bs2)))
           = blades_populated_slots_details_any (Results (Some (bs1 @ bs2)))
       \<and> chassis_populated_slots_details_any (Results (Some (bs1 @ b # bs2)))
           = chassis_populated_slots_details_any (Results (Some (bs1 @ bs2)))
       \<and> blades_chassis_any ch (Results (Some (bs1 @ b # bs2)))
           = blades_chassis_any ch (Results (Some (bs1 @ bs2)))
       \<and> chassis_chassis_any ch (Results (Some (bs1 @ b # bs2))) msc
           = chassis_chassis_any ch (Results (Some (bs1 @ bs2))) msc
       \<and> ((\<forall>b' \<in> set (bs1 @ bs2). blade_raises b' = None) \<longrightarrow>
            (\<exists>rows. blades_chassis_any ch (Results (Some (bs1 @ b # bs2))) = Inr rows)
          \<and> (\<exists>rows msc'. chassis_chassis_any ch (Results (Some (bs1 @ b # bs2))) msc
                = Inr (rows, msc')))"
proof -
  have skip: "populate_blade_any mk q b = Inr q" for mk q
    using assms by (rule populate_blade_any_skip)
  have bp: "blades_populated_slots_details_any (Results (Some (bs1 @ b # bs2)))
           = blades_populated_slots_details_any (Results (Some (bs1 @ bs2)))"
    using populate_loop_any_skip [of blades_details b "[]" bs1 bs2, OF skip]
    by (simp add: blades_populated_slots_details_any_def)
  have cp: "chassis_populated_slots_details_any (Results (Some (bs1 @ b # bs2)))
           = chassis_populated_slots_details_any (Results (Some (bs1 @ bs2)))"
    using populate_loop_any_skip [of chassis_details b "[]" bs1 bs2, OF skip]
    by (simp add: chassis_populated_slots_details_any_def)
  have bc: "blades_chassis_any ch (Results (Some (bs1 @ b # bs2)))
           = blades_chassis_any ch (Results (Some (bs1 @ bs2)))"
    by (simp only: blades_chassis_any_def bp)
  have cc: "chassis_chassis_any ch (Results (Some (bs1 @ b # bs2))) msc
           = chassis_chassis_any ch (Results (Some (bs1 @ bs2))) msc"
    by (simp only: chassis_chassis_any_def cp)
  have ok: "(\<exists>rows. blades_chassis_any ch (Results (Some (bs1 @ b # bs2))) = Inr rows)
          \<and> (\<exists>rows msc'. chassis_chassis_any ch (Results (Some (bs1 @ b # bs2))) msc
                = Inr (rows, msc'))"
    if rest: "\<forall>b' \<in> set (bs1 @ bs2). blade_raises b' = None"
  proof -
    obtain pb where pb: "populate_loop_any blades_details [] (bs1 @ bs2) = Inr pb"
      using populate_loop_any_Inr [OF rest] by blast
    obtain pc where pc: "populate_loop_any chassis_details [] (bs1 @ bs2) = Inr pc"
      using populate_loop_any_Inr [OF rest] by blast
    have "\<exists>rows. blades_chassis_any ch (Results (Some (bs1 @ bs2))) = Inr rows"
      by (simp add: blades_chassis_any_def blades_populated_slots_details_any_def pb)
    moreover have "\<exists>rows msc'. chassis_chassis_any ch (Results (Some (bs1 @ bs2))) msc
                = Inr (rows, msc')"
      by (simp add: chassis_chassis_any_def chassis_populated_slots_details_any_def pc)
    ultimately show ?thesis by (simp only: bc cc)
  qed
  from skip [of mk populated] bp cp bc cc ok show ?thesis by blast
qed

text \<open>
  Next to the scenario's blade: blades with slot "x3", a NaN, \<open>None\<close>, U+001C before "5",
  and no slot. The first three answers give what the scenario's blade alone gives.
\<close>

theorem slot_value_error_skipped_witness:
  "chassis_chassis_any scenario_chassis
      (Results (Some [(untyped scenario_blade)\<lparr>b_slot_id := Some (Val (PStr ''x3''))\<rparr>,
                      untyped scenario_blade])) []
     = chassis_chassis scenario_chassis (Results (Some [scenario_blade])) []
   \<and> blades_chassis_any scenario_chassis
      (Results (Some [untyped scenario_blade,
                      (untyped scenario_blade)\<lparr>b_slot_id := Some (Float FNaN)\<rparr>]))
     = blades_chassis scenario_chassis (Results (Some [scenario_blade]))
   \<and> blades_chassis_any scenario_chassis
      (Results (Some [untyped scenario_blade,
                      (untyped scenario_blade)\<lparr>b_slot_id := Some (Val PNone)\<rparr>]))
     = blades_chassis scenario_chassis (Results (Some [scenario_blade]))
   \<and> (\<exists>rows. blades_chassis_any scenario_chassis
      (Results (Some [untyped scenario_blade,
                      (untyped scenario_blade)\<lparr>b_slot_id := Some (Val (PStr [CHR 0x1C, CHR ''5'']))\<rparr>]))
        = Inr rows)
   \<and> (\<exists>rows msc'. chassis_chassis_any scenario_chassis
      (Results (Some [untyped scenario_blade, (untyped scenario_blade)\<lparr>b_slot_id := None\<rparr>])) []
        = Inr (rows, msc'))"
proof -
  let ?sb = "untyped scenario_blade"
  let ?bx = "?sb\<lparr>b_slot_id := Some (Val (PStr ''x3''))\<rparr>"
  let ?bf = "?sb\<lparr>b_slot_id := Some (Float FNaN)\<rparr>"
  let ?bn = "?sb\<lparr>b_slot_id := Some (Val PNone)\<rparr>"
  let ?bw = "?sb\<lparr>b_slot_id := Some (Val (PStr [CHR 0x1C, CHR ''5'']))\<rparr>"
  let ?bm = "?sb\<lparr>b_slot_id := None\<rparr>"
  have vx: "py_int_any (Val (PStr ''x3'')) = Inl ValueError" by code_simp
  have vw: "py_int_any (Val (PStr [CHR 0x1C, CHR ''5''])) = Inl ValueError" by code_simp
  have hx: "b_slot_id ?bx = None \<or> b_slot_id ?bx = Some (Val PNone) \<or>
           (\<exists>v. b_slot_id ?bx = Some v \<and> py_int_any v = Inl ValueError)"
    using vx by simp
  have hf: "b_slot_id ?bf = None \<or> b_slot_id ?bf = Some (Val PNone) \<or>
           (\<exists>v. b_slot_id ?bf = Some v \<and> py_int_any v = Inl ValueError)"
    by simp
  have hn: "b_slot_id ?bn = None \<or> b_slot_id ?bn = Some (Val PNone) \<or>
           (\<exists>v. b_slot_id ?bn = Some v \<and> py_int_any v = Inl ValueError)"
    by simp
  have hw: "b_slot_id ?bw = None \<or> b_slot_id ?bw = Some (Val PNone) \<or>
           (\<exists>v. b_slot_id ?bw = Some v \<and> py_int_any v = Inl ValueError)"
    using vw by simp
  have hm: "b_slot_id ?bm = None \<or> b_slot_id ?bm = Some (Val PNone) \<or>
           (\<exists>v. b_slot_id ?bm = Some v \<and> py_int_any v = Inl ValueError)"
    by simp
  have rest: "\<forall>b' \<in> set ([?sb] @ []). blade_raises b' = None" by code_simp
  have x: "chassis_chassis_any scenario_chassis (Results (Some [?bx, ?sb])) []
             = chassis_chassis_any scenario_chassis (Results (Some [?sb])) []"
    using slot_value_error_skipped [OF hx, of _ _ "[]" "[?sb]" scenario_chassis "[]"]
    unfolding append.simps by blast
  have f: "blades_chassis_any scenario_chassis (Results (Some [?sb, ?bf]))
             = blades_chassis_any scenario_chassis (Results (Some [?sb]))"
    using slot_value_error_skipped [OF hf, of _ _ "[?sb]" "[]" scenario_chassis "[]"]
    unfolding append.simps by blast
  have n: "blades_chassis_any scenario_chassis (Results (Some [?sb, ?bn]))
             = blades_chassis_any scenario_chassis (Results (Some [?sb]))"
    using slot_value_error_skipped [OF hn, of _ _ "[?sb]" "[]" scenario_chassis "[]"]
    unfolding append.simps by blast
  have w: "\<exists>rows. blades_chassis_any scenario_chassis (Results (Some [?sb, ?bw])) = Inr rows"
    using slot_value_error_skipped [OF hw, of _ _ "[?sb]" "[]" scenario_chassis "[]"] rest
    unfolding append.simps by blast
  have m: "\<exists>rows msc'. chassis_chassis_any scenario_chassis (Results (Some [?sb, ?bm])) []
             = Inr (rows, msc')"
    using slot_value_error_skipped [OF hm, of _ _ "[?sb]" "[]" scenario_chassis "[]"] rest
    unfolding append.simps by blast
  have tb: "blades_chassis_any scenario_chassis (Results (Some [?sb]))
              = blades_chassis scenario_chassis (Results (Some [scenario_blade]))"
    using blades_chassis_any_untyped [of scenario_chassis "[scenario_blade]"] by simp
  have tc: "chassis_chassis_any scenario_chassis (Results (Some [?sb])) []
              = chassis_chassis scenario_chassis (Results (Some [scenario_blade])) []"
    using chassis_chassis_any_untyped [of scenario_chassis "[scenario_blade]" "[]"] by simp
  from x f n w m tb tc show ?thesis by simp
qed

text \<open>
  C9: in chassis.py, with a two-slot blade \<open>d\<close> in slot \<open>s\<close> and another blade \<open>d'\<close>
  directly in slot \<open>s + 1\<close>, the row of slot \<open>s + 1\<close> carries the entry that comes later
  in the iteration order of the direct-assignment map: \<open>d'\<close> when slot \<open>s\<close> comes first,
  and \<open>d\<close>, overwriting the direct entry, when slot \<open>s\<close> comes after slot \<open>s + 1\<close>.
\<close>

theorem expansion_overwrite_order:
  assumes "chassis_populated_slots_details resp = Inr populated"
    and "two_slot d" and "0 \<le> s" and "s + 1 \<le> total_slots ch"
  shows "(populated = xs @ (s, d) # ys @ (s + 1, d') # zs \<longrightarrow>
            dict_get (expanded_slots_details (total_slots ch) populated) (s + 1) = Some d'
          \<and> (\<exists>rows msc'. chassis_chassis ch resp msc = Inr (rows, msc')
               \<and> BladeModel (rows ! nat s) = model d' \<and> BladeSerial (rows ! nat s) = serial d'))
       \<and> (populated = xs @ (s + 1, d') # ys @ (s, d) # zs \<longrightarrow>
            dict_get (expanded_slots_details (total_slots ch) populated) (s + 1) = Some d
          \<and> (\<exists>rows msc'. chassis_chassis ch resp msc = Inr (rows, msc')
               \<and> BladeModel (rows ! nat s) = model d \<and> BladeSerial (rows ! nat s) = serial d))"
proof -
  let ?T = "total_slots ch"
  from assms(1) have pop: "populated = direct_map resp"
    by (simp add: chassis_populated_direct_map)
  then have dist: "distinct (map fst populated)" by (simp add: distinct_direct_map)
  have row: "\<exists>rows msc'. chassis_chassis ch resp msc = Inr (rows, msc')
               \<and> BladeModel (rows ! nat s) = model e \<and> BladeSerial (rows ! nat s) = serial e"
    if "dict_get (expanded_slots_details ?T populated) (s + 1) = Some e" for e
  proof -
    have "slot_rows ch (expanded_slots_details ?T populated) ! nat (s + 1 - 1)
            = slot_row ch (expanded_slots_details ?T populated) (s + 1)"
      using assms(3,4) by (intro nth_slot_rows) simp_all
    with that show ?thesis
      by (simp add: chassis_chassis_eq pop [symmetric] slot_row_def)
  qed
  have a: "dict_get (expanded_slots_details ?T populated) (s + 1) = Some d'"
    if eq: "populated = xs @ (s, d) # ys @ (s + 1, d') # zs"
  proof -
    from dist eq have "s \<notin> fst ` set zs \<and> s + 1 \<notin> fst ` set zs" by auto
    then have "\<forall>e \<in> set zs. fst e \<noteq> s \<and> fst e \<noteq> s + 1" by (auto simp: image_iff)
    then have no: "\<forall>e \<in> set zs. \<not> writes ?T (s + 1) e" by (auto simp: writes_def)
    have w: "writes ?T (s + 1) (s + 1, d')" by (simp add: writes_def)
    from dict_get_expand_loop_last [OF w no, of "[]" "xs @ (s, d) # ys"]
    show ?thesis by (simp add: expanded_slots_details_def eq)
  qed
  have b: "dict_get (expanded_slots_details ?T populated) (s + 1) = Some d"
    if eq: "populated = xs @ (s + 1, d') # ys @ (s, d) # zs"
  proof -
    from dist eq have "s \<notin> fst ` set zs \<and> s + 1 \<notin> fst ` set zs" by auto
    then have "\<forall>e \<in> set zs. fst e \<noteq> s \<and> fst e \<noteq> s + 1" by (auto simp: image_iff)
    then have no: "\<forall>e \<in> set zs. \<not> writes ?T (s + 1) e" by (auto simp: writes_def)
    have w: "writes ?T (s + 1) (s, d)" using assms(2,4) by (simp add: writes_def)
    from dict_get_expand_loop_last [OF w no, of "[]" "xs @ (s + 1, d') # ys"]
    show ?thesis by (simp add: expanded_slots_details_def eq)
  qed
  from a b row show ?thesis by blast
qed

text \<open>
  The scenario's blade in slot 3 and a one-slot blade in slot 4, in both input orders.
\<close>

theorem expansion_overwrite_order_witness:
  "(\<exists>rows msc'.
      chassis_chassis scenario_chassis
        (Results (Some [scenario_blade,
                        scenario_blade\<lparr>b_slot_id := Some (PInt 4),
                          b_model := Some (PStr ''UCSB-B200-M5''), b_serial := Some (PStr ''SN2'')\<rparr>]))
        [] = Inr (rows, msc')
    \<and> BladeModel (rows ! 3) = PStr ''UCSB-B200-M5'' \<and> BladeSerial (rows ! 3) = PStr ''SN2'')
   \<and> (\<exists>rows msc'.
      chassis_chassis scenario_chassis
        (Results (Some [scenario_blade\<lparr>b_slot_id := Some (PInt 4),
                          b_model := Some (PStr ''UCSB-B200-M5''), b_serial := Some (PStr ''SN2'')\<rparr>,
                        scenario_blade]))
        [] = Inr (rows, msc')
    \<and> BladeModel (rows ! 3) = PStr ''UCSX-410C-M7'' \<and> BladeSerial (rows ! 3) = PStr ''SN1'')"
proof -
  let ?b4 = "scenario_blade\<lparr>b_slot_id := Some (PInt 4),
               b_model := Some (PStr ''UCSB-B200-M5''), b_serial := Some (PStr ''SN2'')\<rparr>"
  let ?d3 = "\<lparr>model = PStr ''UCSX-410C-M7'', serial = PStr ''SN1''\<rparr>"
  let ?d4 = "\<lparr>model = PStr ''UCSB-B200-M5'', serial = PStr ''SN2''\<rparr>"
  have p1: "chassis_populated_slots_details (Results (Some [scenario_blade, ?b4]))
              = Inr [(3, ?d3), (4, ?d4)]"
    by code_simp
  have p2: "chassis_populated_slots_details (Results (Some [?b4, scenario_blade]))
              = Inr [(4, ?d4), (3, ?d3)]"
    by code_simp
  have two: "two_slot ?d3" by code_simp
  have lo: "(0::int) \<le> 3" by simp
  have hi: "3 + 1 \<le> total_slots scenario_chassis" by (simp add: total_slots_8)
  have n: "nat 3 = 3" by simp
  have a: "\<exists>rows msc'.
      chassis_chassis scenario_chassis (Results (Some [scenario_blade, ?b4])) [] = Inr (rows, msc')
    \<and> BladeModel (rows ! 3) = PStr ''UCSB-B200-M5'' \<and> BladeSerial (rows ! 3) = PStr ''SN2''"
    using expansion_overwrite_order [OF p1 two lo hi, where xs = "[]" and ys = "[]" and zs = "[]" and d' = ?d4
        and msc = "[]"]
    unfolding n by simp
  have b: "\<exists>rows msc'.
      chassis_chassis scenario_chassis (Results (Some [?b4, scenario_blade])) [] = Inr (rows, msc')
    \<and> BladeModel (rows ! 3) = PStr ''UCSX-410C-M7'' \<and> BladeSerial (rows ! 3) = PStr ''SN1''"
    using expansion_overwrite_order [OF p2 two lo hi, where xs = "[]" and ys = "[]" and zs = "[]" and d' = ?d4
        and msc = "[]"]
    unfolding n by simp
  from a b show ?thesis by blast
qed

text \<open>
  C10: when the chassis list is absent (no answer, no \<open>results\<close>, \<open>results\<close> is \<open>None\<close>) or
  empty, both scripts write the header row and nothing else; chassis.py appends no
  summary block.
\<close>

theorem empty_chassis_list_header_only:
  "blades_main NoResponse = [fieldnames] \<and> blades_main NoResults = [fieldnames]
   \<and> blades_main (Results None) = [fieldnames] \<and> blades_main (Results (Some [])) = [fieldnames]
   \<and> chassis_main NoResponse = [fieldnames] \<and> chassis_main NoResults = [fieldnames]
   \<and> chassis_main (Results None) = [fieldnames] \<and> chassis_main (Results (Some [])) = [fieldnames]"
  by simp

end
